theory Spec2Isabelle
  imports Complex_Main "HOL-Library.Multiset"
begin

section \<open>JavaScript values\<close>

text \<open>
  The flag manifest reaches the program as whatever \<^verbatim>\<open>yaml.load\<close> (server) or
  \<^verbatim>\<open>response.json()\<close> (client) returns: \<^verbatim>\<open>undefined\<close> (an empty YAML
  document), \<^verbatim>\<open>null\<close>, a boolean, a number, a string, an array or an object.
  An object is the list of its own enumerable properties, in the order in which
  \<^verbatim>\<open>Object.keys\<close> enumerates them.  Members inherited from the built-in
  prototypes (\<^verbatim>\<open>constructor\<close>, \<^verbatim>\<open>toString\<close>, ...) are not part of the model:
  a name that is no own property reads as \<^verbatim>\<open>undefined\<close>.  The inherited
  members are functions and prototype objects without an \<^verbatim>\<open>enabled\<close> property, so
  an enablement test gives the same answer for them as for \<^verbatim>\<open>undefined\<close>.  The
  methods \<^verbatim>\<open>getFeatureInfo\<close>, which would hand such a member to the caller, are
  left out for that reason.
\<close>

datatype jsval =
    JUndefined
  | JNull
  | JBool bool
  | JNum rat
  | JNaN
  | JInfinity bool
  | JStr string
  | JArr "jsval list"
  | JObj "(string \<times> jsval) list"

datatype error = TypeError

text \<open>Truthiness, as tested by \<^verbatim>\<open>!v\<close>, \<^verbatim>\<open>v || w\<close> and \<^verbatim>\<open>if (v)\<close>.\<close>

fun truthy :: "jsval \<Rightarrow> bool" where
  "truthy JUndefined = False"
| "truthy JNull = False"
| "truthy (JBool b) = b"
| "truthy (JNum q) = (q \<noteq> 0)"
| "truthy JNaN = False"
| "truthy (JInfinity _) = True"
| "truthy (JStr s) = (s \<noteq> [])"
| "truthy (JArr _) = True"
| "truthy (JObj _) = True"

text \<open>\<^verbatim>\<open>v || w\<close>\<close>

definition js_or :: "jsval \<Rightarrow> jsval \<Rightarrow> jsval" where
  "js_or v w = (if truthy v then v else w)"

text \<open>The decimal name of an array index.\<close>

fun dec :: "nat \<Rightarrow> string" where
  "dec n = (if n < 10 then [''0123456789'' ! n]
            else dec (n div 10) @ [''0123456789'' ! (n mod 10)])"

declare dec.simps [simp del]

text \<open>
  The own enumerable properties of a value: the members of an object, the elements of
  an array and the characters of a string under their indices; nothing for the other
  primitives.
\<close>

fun own_props :: "jsval \<Rightarrow> (string \<times> jsval) list" where
  "own_props (JObj kvs) = kvs"
| "own_props (JArr xs) = zip (map dec [0..<length xs]) xs"
| "own_props (JStr s) = zip (map dec [0..<length s]) (map (\<lambda>c. JStr [c]) s)"
| "own_props _ = []"

text \<open>
  \<^verbatim>\<open>v[k]\<close> and \<^verbatim>\<open>v.k\<close>: a TypeError on \<^verbatim>\<open>undefined\<close> and \<^verbatim>\<open>null\<close>,
  otherwise the own property, the \<^verbatim>\<open>length\<close> of an array or string, or
  \<^verbatim>\<open>undefined\<close>.
\<close>

fun get_prop :: "jsval \<Rightarrow> string \<Rightarrow> error + jsval" where
  "get_prop JUndefined k = Inl TypeError"
| "get_prop JNull k = Inl TypeError"
| "get_prop v k =
     (case map_of (own_props v) k of
        Some x \<Rightarrow> Inr x
      | None \<Rightarrow>
          (case v of
             JArr xs \<Rightarrow> if k = ''length'' then Inr (JNum (of_nat (length xs))) else Inr JUndefined
           | JStr s \<Rightarrow> if k = ''length'' then Inr (JNum (of_nat (length s))) else Inr JUndefined
           | _ \<Rightarrow> Inr JUndefined))"

text \<open>\<^verbatim>\<open>Object.keys(v)\<close>\<close>

fun object_keys :: "jsval \<Rightarrow> error + string list" where
  "object_keys JUndefined = Inl TypeError"
| "object_keys JNull = Inl TypeError"
| "object_keys v = Inr (map fst (own_props v))"

text \<open>
  \<^verbatim>\<open>keys.filter(p)\<close> with a predicate that may throw: the keys are visited in
  order and the first exception ends the call.
\<close>

fun filter_keys :: "(string \<Rightarrow> error + bool) \<Rightarrow> string list \<Rightarrow> error + string list" where
  "filter_keys p [] = Inr []"
| "filter_keys p (k # ks) =
     (case p k of
        Inl e \<Rightarrow> Inl e
      | Inr b \<Rightarrow>
          (case filter_keys p ks of
             Inl e \<Rightarrow> Inl e
           | Inr r \<Rightarrow> Inr (if b then k # r else r)))"

section \<open>The server's flag service (class FeatureFlagService)\<close>

text \<open>
  The state of the service is its three fields.  Every method that can reach a property
  read returns \<open>error + result\<close>, so that an exception escaping the method is a value
  \<open>Inl\<close>; \<^verbatim>\<open>loadConfiguration\<close> catches its own exceptions and returns the state.
  Console output is not modelled.
\<close>

record service =
  environment :: string
  config :: jsval
  configPath :: "string option"

text \<open>
  The configuration directory: a file name is absent from it, or names a file that
  \<^verbatim>\<open>fs.readFileSync\<close> cannot read (it throws, as it does for an absent file), a file
  on which \<^verbatim>\<open>yaml.load\<close> throws, or a file that \<^verbatim>\<open>yaml.load\<close> parses to a value.
\<close>

datatype config_file = Unreadable | Unparsable | Document jsval

type_synonym disk = "string \<rightharpoonup> config_file"

definition empty_config :: jsval where
  "empty_config = JObj [(''features'', JObj [])]"

definition configFileName :: "string \<Rightarrow> string" where
  "configFileName env = (if env = ''stage'' then ''features.stage.yml'' else ''features.prod.yml'')"

text \<open>
  \<^verbatim>\<open>loadConfiguration()\<close>.  The parsed document is assigned to
  \<^verbatim>\<open>this.config\<close> first; the log line that follows evaluates
  \<^verbatim>\<open>Object.keys(this.config.features || {})\<close> inside the same \<^verbatim>\<open>try\<close>, so an
  exception there also ends in the \<^verbatim>\<open>catch\<close>, which stores the empty configuration.
\<close>

definition loadConfiguration :: "disk \<Rightarrow> service \<Rightarrow> service" where
  "loadConfiguration d s =
     (let s1 = s\<lparr>configPath := Some (''../config/'' @ configFileName (environment s))\<rparr>
      in case d (configFileName (environment s)) of
           None \<Rightarrow> s1\<lparr>config := empty_config\<rparr>
         | Some Unreadable \<Rightarrow> s1\<lparr>config := empty_config\<rparr>
         | Some Unparsable \<Rightarrow> s1\<lparr>config := empty_config\<rparr>
         | Some (Document v) \<Rightarrow>
             (case get_prop v ''features'' of
                Inl e \<Rightarrow> s1\<lparr>config := empty_config\<rparr>
              | Inr f \<Rightarrow>
                  (case object_keys (js_or f (JObj [])) of
                     Inl e \<Rightarrow> s1\<lparr>config := empty_config\<rparr>
                   | Inr ks \<Rightarrow> s1\<lparr>config := v\<rparr>)))"

text \<open>\<^verbatim>\<open>new FeatureFlagService(environment = 'production')\<close>\<close>

definition FeatureFlagService :: "disk \<Rightarrow> string option \<Rightarrow> service" where
  "FeatureFlagService d env =
     loadConfiguration d
       \<lparr>environment = (case env of None \<Rightarrow> ''production'' | Some e \<Rightarrow> e),
        config = JNull, configPath = None\<rparr>"

text \<open>\<^verbatim>\<open>!this.config || !this.config.features\<close>, the guard of every query.\<close>

definition not_loaded :: "service \<Rightarrow> error + bool" where
  "not_loaded s =
     (if \<not> truthy (config s) then Inr True
      else case get_prop (config s) ''features'' of
             Inl e \<Rightarrow> Inl e
           | Inr f \<Rightarrow> Inr (\<not> truthy f))"

text \<open>\<^verbatim>\<open>isEnabled(featureName)\<close>\<close>

definition isEnabled :: "service \<Rightarrow> string \<Rightarrow> error + bool" where
  "isEnabled s featureName =
     (case not_loaded s of
        Inl e \<Rightarrow> Inl e
      | Inr True \<Rightarrow> Inr False
      | Inr False \<Rightarrow>
          (case get_prop (config s) ''features'' of
             Inl e \<Rightarrow> Inl e
           | Inr fs \<Rightarrow>
               (case get_prop fs featureName of
                  Inl e \<Rightarrow> Inl e
                | Inr feature \<Rightarrow>
                    if \<not> truthy feature then Inr False
                    else (case get_prop feature ''enabled'' of
                            Inl e \<Rightarrow> Inl e
                          | Inr en \<Rightarrow> Inr (en = JBool True)))))"

text \<open>\<^verbatim>\<open>getAllFeatures()\<close>\<close>

definition getAllFeatures :: "service \<Rightarrow> error + jsval" where
  "getAllFeatures s =
     (case not_loaded s of
        Inl e \<Rightarrow> Inl e
      | Inr True \<Rightarrow> Inr (JObj [])
      | Inr False \<Rightarrow> get_prop (config s) ''features'')"

text \<open>The filter predicate \<^verbatim>\<open>key => features[key].enabled === true\<close>.\<close>

definition enabled_strictly :: "jsval \<Rightarrow> string \<Rightarrow> error + bool" where
  "enabled_strictly fs key =
     (case get_prop fs key of
        Inl e \<Rightarrow> Inl e
      | Inr feature \<Rightarrow>
          (case get_prop feature ''enabled'' of
             Inl e \<Rightarrow> Inl e
           | Inr en \<Rightarrow> Inr (en = JBool True)))"

text \<open>\<^verbatim>\<open>getEnabledFeatures()\<close>\<close>

definition getEnabledFeatures :: "service \<Rightarrow> error + string list" where
  "getEnabledFeatures s =
     (case not_loaded s of
        Inl e \<Rightarrow> Inl e
      | Inr True \<Rightarrow> Inr []
      | Inr False \<Rightarrow>
          (case get_prop (config s) ''features'' of
             Inl e \<Rightarrow> Inl e
           | Inr fs \<Rightarrow>
               (case object_keys fs of
                  Inl e \<Rightarrow> Inl e
                | Inr ks \<Rightarrow> filter_keys (enabled_strictly fs) ks)))"

text \<open>\<^verbatim>\<open>getEnvironment()\<close>, \<^verbatim>\<open>getConfig()\<close> and \<^verbatim>\<open>reload()\<close>\<close>

definition getEnvironment :: "service \<Rightarrow> string" where
  "getEnvironment s = environment s"

definition getConfig :: "service \<Rightarrow> jsval" where
  "getConfig s = js_or (config s) empty_config"

definition reload :: "disk \<Rightarrow> service \<Rightarrow> service" where
  "reload d s = loadConfiguration d s"

text \<open>
  The directory \<^verbatim>\<open>routes/\<close>, by feature name: the file
  \<^verbatim>\<open>routes/<featureName>.js\<close> does not exist (\<^verbatim>\<open>fs.existsSync\<close> is false),
  or \<^verbatim>\<open>require\<close> throws on it, or it exports an Express router, as every route
  module of the repository does (\<^verbatim>\<open>module.exports = router\<close>).  A router is a
  handler group: given a request (with the mount prefix stripped from its path) it
  responds, passes the request on (\<^verbatim>\<open>next()\<close>), or raises an error (it throws, or
  calls \<^verbatim>\<open>next(err)\<close>).  Of a request the model keeps the method, the path, and
  whether the JSON body parser rejects its body.
\<close>

record request =
  req_method :: string
  req_path :: "string list"
  body_rejected :: bool

datatype response = Response nat string

datatype outcome = Respond response | Next | Raise

type_synonym handler_group = "request \<Rightarrow> outcome"

datatype module_file = LoadThrows | Exports handler_group

type_synonym modules = "string \<rightharpoonup> module_file"

text \<open>\<^verbatim>\<open>getFeatureRouter(featureName)\<close>; the result \<^verbatim>\<open>null\<close> is \<open>None\<close>.\<close>

definition getFeatureRouter :: "modules \<Rightarrow> service \<Rightarrow> string \<Rightarrow> error + handler_group option" where
  "getFeatureRouter ms s featureName =
     (case isEnabled s featureName of
        Inl e \<Rightarrow> Inl e
      | Inr enabled \<Rightarrow>
          if \<not> enabled then Inr None
          else (case ms featureName of
                  None \<Rightarrow> Inr None
                | Some LoadThrows \<Rightarrow> Inr None
                | Some (Exports r) \<Rightarrow> Inr (Some r)))"

section \<open>The server script: routing table and mount pass\<close>

text \<open>
  The server script is \<^verbatim>\<open>api/server.js\<close>, as listed in
  \<^verbatim>\<open>TRUNK_BASED_DEMO.md\<close>.  The host router it configures is the Express
  application, a library outside the repository; here it is the ordered list of the
  layers registered on it.  A path is the list of its segments: \<^verbatim>\<open>/api/search\<close> is
  \<open>[''api'', ''search'']\<close>; segments are compared as they are written.
  \<^verbatim>\<open>app.use(prefix, group)\<close> appends a layer, \<^verbatim>\<open>app.use(group)\<close> one at the
  root prefix, and \<^verbatim>\<open>app.use((err, req, res, next) => ...)\<close> an error handler.  A
  request is offered to the layers in order; a layer whose prefix covers the path hands
  the request, with the prefix stripped, to its handler group.  The first response
  given is the answer; when a handler group raises an error, the remaining ordinary
  layers are skipped and the next error handler answers.  \<open>None\<close> stands for a
  request that no layer of the table answers.
\<close>

datatype layer = Layer "string list" handler_group | ErrorHandler "request \<Rightarrow> response"

fun layer_prefix :: "layer \<Rightarrow> string list" where
  "layer_prefix (Layer pre g) = pre"
| "layer_prefix (ErrorHandler h) = []"

definition app_use :: "string list \<Rightarrow> handler_group \<Rightarrow> layer list \<Rightarrow> layer list" where
  "app_use pre g app = app @ [Layer pre g]"

definition app_use_error :: "(request \<Rightarrow> response) \<Rightarrow> layer list \<Rightarrow> layer list" where
  "app_use_error h app = app @ [ErrorHandler h]"

definition covers :: "string list \<Rightarrow> string list \<Rightarrow> bool" where
  "covers pre p = (take (length pre) p = pre)"

definition strip :: "string list \<Rightarrow> request \<Rightarrow> request" where
  "strip pre req = req\<lparr>req_path := drop (length pre) (req_path req)\<rparr>"

fun on_error :: "layer list \<Rightarrow> request \<Rightarrow> response option" where
  "on_error [] req = None"
| "on_error (Layer pre g # ls) req = on_error ls req"
| "on_error (ErrorHandler h # ls) req = Some (h req)"

fun dispatch :: "layer list \<Rightarrow> request \<Rightarrow> response option" where
  "dispatch [] req = None"
| "dispatch (Layer pre g # ls) req =
     (if covers pre (req_path req)
      then (case g (strip pre req) of
              Respond r \<Rightarrow> Some r
            | Next \<Rightarrow> dispatch ls req
            | Raise \<Rightarrow> on_error ls req)
      else dispatch ls req)"
| "dispatch (ErrorHandler h # ls) req = dispatch ls req"

text \<open>
  One capability of the mount pass:
  \<^verbatim>\<open>const r = featureFlags.getFeatureRouter(name); if (r) { app.use(prefix, r); }\<close>
\<close>

definition mount :: "modules \<Rightarrow> service \<Rightarrow> string \<times> string list \<Rightarrow> layer list \<Rightarrow> error + layer list" where
  "mount ms s cap app =
     (case getFeatureRouter ms s (fst cap) of
        Inl e \<Rightarrow> Inl e
      | Inr None \<Rightarrow> Inr app
      | Inr (Some r) \<Rightarrow> Inr (app_use (snd cap) r app))"

text \<open>The mount calls of a pass, in the order in which the script makes them.\<close>

fun mount_pass :: "modules \<Rightarrow> service \<Rightarrow> (string \<times> string list) list \<Rightarrow> layer list \<Rightarrow> error + layer list" where
  "mount_pass ms s [] app = Inr app"
| "mount_pass ms s (cap # caps) app =
     (case mount ms s cap app of
        Inl e \<Rightarrow> Inl e
      | Inr app' \<Rightarrow> mount_pass ms s caps app')"

text \<open>
  The two global middleware of the script, both third-party.  \<^verbatim>\<open>cors()\<close> with its
  default options answers every \<^verbatim>\<open>OPTIONS\<close> request itself, with status 204 and an
  empty body, and passes every other request on.  \<^verbatim>\<open>express.json()\<close> passes the
  request on, or raises an error when it rejects the body.
\<close>

definition cors :: handler_group where
  "cors = (\<lambda>req. if req_method req = ''OPTIONS'' then Respond (Response 204 []) else Next)"

definition express_json :: handler_group where
  "express_json = (\<lambda>req. if body_rejected req then Raise else Next)"

text \<open>
  \<^verbatim>\<open>app.get(path, h)\<close> and \<^verbatim>\<open>app.post(path, h)\<close>: a handler for one method on
  one path; a \<^verbatim>\<open>GET\<close> route also serves \<^verbatim>\<open>HEAD\<close>.
\<close>

definition route :: "string \<Rightarrow> response \<Rightarrow> handler_group" where
  "route meth r =
     (\<lambda>req. if (req_method req = meth \<or> (meth = ''GET'' \<and> req_method req = ''HEAD'')) \<and>
                req_path req = []
             then Respond r else Next)"

text \<open>
  The last two layers of the script: the 404 handler
  \<^verbatim>\<open>app.use((req, res) => res.status(404).json({error: 'Not Found', ...}))\<close> and the
  error handler
  \<^verbatim>\<open>app.use((err, req, res, next) => res.status(500).json({error: 'Internal Server Error', ...}))\<close>.
\<close>

definition not_found :: handler_group where
  "not_found = (\<lambda>req. Respond (Response 404 ''Not Found''))"

definition error_handler :: "request \<Rightarrow> response" where
  "error_handler = (\<lambda>req. Response 500 ''Internal Server Error'')"

text \<open>
  The routing table the server script builds, in the order of its statements: the
  global middleware, the core routes and the task routes, the two feature-toggled
  capabilities, the 404 handler and the error handler.  The bodies of the core
  responses are not modelled.
\<close>

definition middleware :: "layer list" where
  "middleware = app_use [] express_json (app_use [] cors [])"

definition core_routes :: "handler_group \<Rightarrow> layer list" where
  "core_routes tasksRouter =
     [Layer [''api'', ''health''] (route ''GET'' (Response 200 ''healthy'')),
      Layer [''api'', ''feature-flags''] (route ''GET'' (Response 200 ''config'')),
      Layer [''api'', ''feature-flags'', ''reload''] (route ''POST'' (Response 200 ''Feature flags reloaded'')),
      Layer [''api'', ''tasks''] tasksRouter]"

definition server_capabilities :: "(string \<times> string list) list" where
  "server_capabilities =
     [(''advanced_search'', [''api'', ''search'']), (''export_csv'', [''api'', ''export''])]"

definition server :: "modules \<Rightarrow> service \<Rightarrow> handler_group \<Rightarrow> error + layer list" where
  "server ms s tasksRouter =
     (case mount ms s (''advanced_search'', [''api'', ''search''])
             (middleware @ core_routes tasksRouter) of
        Inl e \<Rightarrow> Inl e
      | Inr app1 \<Rightarrow>
          (case mount ms s (''export_csv'', [''api'', ''export'']) app1 of
             Inl e \<Rightarrow> Inl e
           | Inr app2 \<Rightarrow> Inr (app_use_error error_handler (app_use [] not_found app2))))"

section \<open>The client's flag manager (class FeatureFlagManager)\<close>

record manager =
  features :: jsval
  client_environment :: string
  loaded :: bool

text \<open>\<^verbatim>\<open>new FeatureFlagManager()\<close>\<close>

definition FeatureFlagManager :: manager where
  "FeatureFlagManager = \<lparr>features = JObj [], client_environment = ''production'', loaded = False\<rparr>"

text \<open>
  What \<^verbatim>\<open>fetch('config/features.json')\<close> gives: the promise rejects, or it resolves
  to a response with its \<^verbatim>\<open>ok\<close> flag and a body, on which \<^verbatim>\<open>response.json()\<close>
  either rejects or yields a value.
\<close>

datatype body = NotJson | Json jsval

datatype fetched = FetchThrows | Responded bool body

text \<open>\<^verbatim>\<open>s.includes(t)\<close>\<close>

definition str_includes :: "string \<Rightarrow> string \<Rightarrow> bool" where
  "str_includes s t = list_ex (\<lambda>i. take (length t) (drop i s) = t) [0..<Suc (length s)]"

text \<open>The filter predicate \<^verbatim>\<open>key => this.features[key].enabled\<close>.\<close>

definition enabled_truthy :: "jsval \<Rightarrow> string \<Rightarrow> error + bool" where
  "enabled_truthy fs key =
     (case get_prop fs key of
        Inl e \<Rightarrow> Inl e
      | Inr feature \<Rightarrow>
          (case get_prop feature ''enabled'' of
             Inl e \<Rightarrow> Inl e
           | Inr en \<Rightarrow> Inr (truthy en)))"

text \<open>
  \<^verbatim>\<open>init(environment = null)\<close>, given the page's \<^verbatim>\<open>window.location.pathname\<close>
  and the outcome of the fetch.  The log line at the end of the \<^verbatim>\<open>try\<close> block
  filters the keys of the new feature map; an exception there is caught like any other
  and resets the feature map to \<^verbatim>\<open>{}\<close>, with \<^verbatim>\<open>loaded\<close> already set.
\<close>

definition init :: "string \<Rightarrow> fetched \<Rightarrow> string option \<Rightarrow> manager \<Rightarrow> manager" where
  "init pathname f env m =
     (let m1 = m\<lparr>client_environment :=
                   (case env of
                      Some e \<Rightarrow> if e \<noteq> [] then e
                                else if str_includes pathname ''/stage/'' then ''stage''
                                else if str_includes pathname ''/production/'' then ''production''
                                else ''production''
                    | None \<Rightarrow> if str_includes pathname ''/stage/'' then ''stage''
                              else if str_includes pathname ''/production/'' then ''production''
                              else ''production'')\<rparr>
      in case f of
           FetchThrows \<Rightarrow> m1\<lparr>features := JObj []\<rparr>
         | Responded ok b \<Rightarrow>
             if \<not> ok then m1\<lparr>features := JObj []\<rparr>
             else (case b of
                     NotJson \<Rightarrow> m1\<lparr>features := JObj []\<rparr>
                   | Json cfg \<Rightarrow>
                       (case get_prop cfg ''features'' of
                          Inl e \<Rightarrow> m1\<lparr>features := JObj []\<rparr>
                        | Inr fs \<Rightarrow>
                            (let m2 = m1\<lparr>features := js_or fs (JObj []), loaded := True\<rparr>
                             in case object_keys (features m2) of
                                  Inl e \<Rightarrow> m2\<lparr>features := JObj []\<rparr>
                                | Inr ks \<Rightarrow>
                                    (case filter_keys (enabled_truthy (features m2)) ks of
                                       Inl e \<Rightarrow> m2\<lparr>features := JObj []\<rparr>
                                     | Inr active \<Rightarrow> m2)))))"

text \<open>\<^verbatim>\<open>isEnabled(featureName)\<close> of the client\<close>

definition isEnabled_client :: "manager \<Rightarrow> string \<Rightarrow> error + bool" where
  "isEnabled_client m featureName =
     (case get_prop (features m) featureName of
        Inl e \<Rightarrow> Inl e
      | Inr feature \<Rightarrow>
          if \<not> truthy feature then Inr False
          else (case get_prop feature ''enabled'' of
                  Inl e \<Rightarrow> Inl e
                | Inr en \<Rightarrow> Inr (en = JBool True)))"

text \<open>\<^verbatim>\<open>getEnabledFeatures()\<close> of the client\<close>

definition getEnabledFeatures_client :: "manager \<Rightarrow> error + string list" where
  "getEnabledFeatures_client m =
     (case object_keys (features m) of
        Inl e \<Rightarrow> Inl e
      | Inr ks \<Rightarrow> filter_keys (enabled_truthy (features m)) ks)"

text \<open>
  The elements of the page, in document order.  \<^verbatim>\<open>querySelectorAll('[data-feature]')\<close>
  selects the elements that carry the attribute.
\<close>

record element =
  data_feature :: "string option"
  display :: string
  classList :: "string list"

text \<open>\<^verbatim>\<open>element.classList.add(c)\<close>\<close>

definition classList_add :: "string \<Rightarrow> string list \<Rightarrow> string list" where
  "classList_add c cs = (if c \<in> set cs then cs else cs @ [c])"

text \<open>\<^verbatim>\<open>applyFeatureFlags()\<close>: the sweep over the tagged elements.\<close>

fun applyFeatureFlags :: "manager \<Rightarrow> element list \<Rightarrow> error + element list" where
  "applyFeatureFlags m [] = Inr []"
| "applyFeatureFlags m (el # els) =
     (case data_feature el of
        None \<Rightarrow>
          (case applyFeatureFlags m els of
             Inl e \<Rightarrow> Inl e
           | Inr els' \<Rightarrow> Inr (el # els'))
      | Some featureName \<Rightarrow>
          (case isEnabled_client m featureName of
             Inl e \<Rightarrow> Inl e
           | Inr enabled \<Rightarrow>
               (let el' = (if enabled
                           then el\<lparr>display := [], classList := classList_add ''feature-enabled'' (classList el)\<rparr>
                           else el\<lparr>display := ''none'', classList := classList_add ''feature-disabled'' (classList el)\<rparr>)
                in case applyFeatureFlags m els of
                     Inl e \<Rightarrow> Inl e
                   | Inr els' \<Rightarrow> Inr (el' # els'))))"

section \<open>Property access\<close>

lemma truthy_not_null: "truthy v \<Longrightarrow> v \<noteq> JUndefined \<and> v \<noteq> JNull"
  by (cases v) auto

lemma falsy_own_props: "\<not> truthy v \<Longrightarrow> own_props v = []"
  by (cases v) auto

lemma get_prop_truthy: "truthy v \<Longrightarrow> \<exists>x. get_prop v k = Inr x"
  by (cases v) (auto split: option.splits)

lemma get_prop_own: "map_of (own_props v) k = Some x \<Longrightarrow> get_prop v k = Inr x"
  by (cases v) (simp_all del: own_props.simps(2,3))

lemma get_prop_not_own:
  "map_of (own_props v) k = None \<Longrightarrow> get_prop v k = Inr x \<Longrightarrow> x = JUndefined \<or> (\<exists>q. x = JNum q)"
  by (cases v) (auto simp del: own_props.simps(2,3) split: if_splits)

lemma get_prop_enabled_truthy:
  "get_prop v ''enabled'' = Inr (JBool True) \<Longrightarrow> truthy v"
  by (cases v) (auto split: option.splits)

text \<open>
  The lookup shared by both \<^verbatim>\<open>isEnabled\<close> methods, on a feature map that passed
  the truthiness guard: the answer is \<open>True\<close> exactly for an own key whose record has
  \<^verbatim>\<open>enabled === true\<close>, and no step of it throws.
\<close>

lemma lookup_enabled:
  assumes "truthy fs"
  shows "(case get_prop fs n of
            Inl e \<Rightarrow> Inl e
          | Inr feature \<Rightarrow>
              if \<not> truthy feature then Inr False
              else (case get_prop feature ''enabled'' of
                      Inl e \<Rightarrow> Inl e
                    | Inr en \<Rightarrow> Inr (en = JBool True))) =
         Inr (\<exists>rec. map_of (own_props fs) n = Some rec \<and>
                     get_prop rec ''enabled'' = Inr (JBool True))"
proof (cases "map_of (own_props fs) n")
  case None
  from assms obtain x where x: "get_prop fs n = Inr x"
    using get_prop_truthy by blast
  with None have "x = JUndefined \<or> (\<exists>q. x = JNum q)"
    by (rule get_prop_not_own)
  then show ?thesis
    using None x by auto
next
  case (Some rec)
  then have g: "get_prop fs n = Inr rec"
    by (rule get_prop_own)
  show ?thesis
  proof (cases "truthy rec")
    case True
    then obtain en where "get_prop rec ''enabled'' = Inr en"
      using get_prop_truthy by blast
    then show ?thesis
      using Some g True by simp
  next
    case False
    then have "get_prop rec ''enabled'' \<noteq> Inr (JBool True)"
      using get_prop_enabled_truthy by blast
    then show ?thesis
      using Some g False by simp
  qed
qed

section \<open>Enablement queries\<close>

lemma isEnabled_client_char:
  "truthy (features m) \<Longrightarrow>
   isEnabled_client m n =
     Inr (\<exists>rec. map_of (own_props (features m)) n = Some rec \<and>
                 get_prop rec ''enabled'' = Inr (JBool True))"
  unfolding isEnabled_client_def by (rule lookup_enabled)

lemma isEnabled_char:
  "isEnabled s n =
     Inr (\<exists>fs rec. get_prop (config s) ''features'' = Inr fs \<and>
                   map_of (own_props fs) n = Some rec \<and>
                   get_prop rec ''enabled'' = Inr (JBool True))"
proof (cases "truthy (config s)")
  case False
  then have "get_prop (config s) ''features'' = Inl TypeError \<or>
             get_prop (config s) ''features'' = Inr JUndefined"
    by (cases "config s") auto
  then show ?thesis
    using False by (auto simp: isEnabled_def not_loaded_def)
next
  case True
  then obtain fs where fs: "get_prop (config s) ''features'' = Inr fs"
    using get_prop_truthy by blast
  show ?thesis
  proof (cases "truthy fs")
    case False
    then have "own_props fs = []" by (rule falsy_own_props)
    then show ?thesis
      using True fs False by (simp add: isEnabled_def not_loaded_def)
  next
    case t: True
    show ?thesis
      using True fs t lookup_enabled [OF t, of n] by (simp add: isEnabled_def not_loaded_def)
  qed
qed

text \<open>The feature map of the client is an object (or another truthy value) after every \<^verbatim>\<open>init\<close>.\<close>

lemma init_truthy: "truthy (features (init p f env m))"
  by (auto simp: init_def Let_def js_or_def split: fetched.splits body.splits sum.splits)

text \<open>
  C2.  On the server, for every state of the service, and on the client, after every
  \<^verbatim>\<open>init\<close>: \<^verbatim>\<open>isEnabled(n)\<close> returns normally, and it returns \<open>True\<close> if and only
  if \<open>n\<close> is an own key of the feature map and the record under it has
  \<^verbatim>\<open>enabled === true\<close>.  A missing name, \<^verbatim>\<open>enabled: false\<close> and a non-boolean
  \<^verbatim>\<open>enabled\<close> all give \<open>False\<close>.
\<close>

theorem isEnabled_iff_enabled_true:
  "isEnabled s n =
     Inr (\<exists>fs rec. get_prop (config s) ''features'' = Inr fs \<and>
                   map_of (own_props fs) n = Some rec \<and>
                   get_prop rec ''enabled'' = Inr (JBool True)) \<and>
   isEnabled_client (init p f env m) n =
     Inr (\<exists>rec. map_of (own_props (features (init p f env m))) n = Some rec \<and>
                 get_prop rec ''enabled'' = Inr (JBool True))"
  using isEnabled_char [of s n] isEnabled_client_char [OF init_truthy, of p f env m n]
  by simp

section \<open>Loading and reloading\<close>

lemma load_environment: "environment (loadConfiguration d s) = environment s"
  by (simp add: loadConfiguration_def Let_def split: option.splits config_file.splits sum.splits)

lemma load_failure:
  assumes "d (configFileName (environment s)) \<in>
             {None, Some Unreadable, Some Unparsable, Some (Document JUndefined), Some (Document JNull)}"
  shows "config (loadConfiguration d s) = empty_config"
  using assms by (auto simp: loadConfiguration_def Let_def)

lemma get_prop_defined: "v \<noteq> JUndefined \<Longrightarrow> v \<noteq> JNull \<Longrightarrow> \<exists>x. get_prop v k = Inr x"
  by (cases v) (auto split: option.splits)

lemma object_keys_truthy: "truthy v \<Longrightarrow> \<exists>ks. object_keys v = Inr ks"
  by (cases v) auto

lemma load_success:
  assumes "d (configFileName (environment s)) = Some (Document v)" "v \<noteq> JUndefined" "v \<noteq> JNull"
  shows "config (loadConfiguration d s) = v"
proof -
  from assms(2,3) obtain f where f: "get_prop v ''features'' = Inr f"
    using get_prop_defined by blast
  have "truthy (js_or f (JObj []))"
    by (simp add: js_or_def)
  then obtain ks where "object_keys (js_or f (JObj [])) = Inr ks"
    using object_keys_truthy by blast
  then show ?thesis
    using assms(1) f by (simp add: loadConfiguration_def Let_def)
qed

lemma empty_config_isEnabled: "config s = empty_config \<Longrightarrow> isEnabled s n = Inr False"
  by (simp add: isEnabled_def not_loaded_def empty_config_def)

lemma empty_config_getEnabledFeatures: "config s = empty_config \<Longrightarrow> getEnabledFeatures s = Inr []"
  by (simp add: getEnabledFeatures_def not_loaded_def empty_config_def)

text \<open>
  C3 as stated fails for malformed content: a document whose record has a non-boolean
  \<^verbatim>\<open>enabled\<close> is no load failure for the code.  It is kept as parsed, the well-formed
  flag beside the malformed record stays enabled, and \<^verbatim>\<open>getEnabledFeatures()\<close> is not
  empty.
\<close>

theorem malformed_record_kept_counterexample:
  "config (FeatureFlagService
       [''features.prod.yml'' \<mapsto> Document (JObj [(''features'', JObj
          [(''search'', JObj [(''enabled'', JStr ''yes'')]),
           (''export'', JObj [(''enabled'', JBool True)])])])]
       (Some ''production'')) =
     JObj [(''features'', JObj
          [(''search'', JObj [(''enabled'', JStr ''yes'')]),
           (''export'', JObj [(''enabled'', JBool True)])])] \<and>
   getEnabledFeatures (FeatureFlagService
       [''features.prod.yml'' \<mapsto> Document (JObj [(''features'', JObj
          [(''search'', JObj [(''enabled'', JStr ''yes'')]),
           (''export'', JObj [(''enabled'', JBool True)])])])]
       (Some ''production'')) = Inr [''export''] \<and>
   isEnabled (FeatureFlagService
       [''features.prod.yml'' \<mapsto> Document (JObj [(''features'', JObj
          [(''search'', JObj [(''enabled'', JStr ''yes'')]),
           (''export'', JObj [(''enabled'', JBool True)])])])]
       (Some ''production'')) ''export'' = Inr True"
  by (simp add: FeatureFlagService_def loadConfiguration_def configFileName_def js_or_def
        getEnabledFeatures_def enabled_strictly_def isEnabled_def not_loaded_def)

text \<open>
  C3, amended.  When the initial load raises inside the loader (the configuration file
  is absent or unreadable, the YAML parser throws, or the document is empty or
  \<^verbatim>\<open>null\<close>, so that reading its \<^verbatim>\<open>features\<close> throws), the constructor still
  returns a service; its configuration is the empty manifest \<^verbatim>\<open>{ features: {} }\<close>,
  \<^verbatim>\<open>getEnabledFeatures()\<close> returns the empty list and \<^verbatim>\<open>isEnabled(n)\<close> returns
  \<open>False\<close> for every name.  A document that parses to any other value, a malformed
  record included, is kept as parsed.
\<close>

theorem initial_load_fail_safe:
  "(d (configFileName (case env of None \<Rightarrow> ''production'' | Some e \<Rightarrow> e)) \<in>
      {None, Some Unreadable, Some Unparsable, Some (Document JUndefined), Some (Document JNull)} \<longrightarrow>
      config (FeatureFlagService d env) = empty_config \<and>
      getEnabledFeatures (FeatureFlagService d env) = Inr [] \<and>
      (\<forall>n. isEnabled (FeatureFlagService d env) n = Inr False)) \<and>
   (\<forall>v. d (configFileName (case env of None \<Rightarrow> ''production'' | Some e \<Rightarrow> e)) = Some (Document v) \<and>
        v \<noteq> JUndefined \<and> v \<noteq> JNull \<longrightarrow>
      config (FeatureFlagService d env) = v)"
proof (intro conjI impI allI)
  assume f: "d (configFileName (case env of None \<Rightarrow> ''production'' | Some e \<Rightarrow> e)) \<in>
      {None, Some Unreadable, Some Unparsable, Some (Document JUndefined), Some (Document JNull)}"
  have c: "config (FeatureFlagService d env) = empty_config"
    unfolding FeatureFlagService_def by (rule load_failure) (use f in simp)
  from c show "config (FeatureFlagService d env) = empty_config" .
  from c show "getEnabledFeatures (FeatureFlagService d env) = Inr []"
    by (rule empty_config_getEnabledFeatures)
  from c show "isEnabled (FeatureFlagService d env) n = Inr False" for n
    by (rule empty_config_isEnabled)
next
  fix v
  assume "d (configFileName (case env of None \<Rightarrow> ''production'' | Some e \<Rightarrow> e)) = Some (Document v) \<and>
        v \<noteq> JUndefined \<and> v \<noteq> JNull"
  then show "config (FeatureFlagService d env) = v"
    unfolding FeatureFlagService_def by (intro load_success) simp_all
qed

text \<open>
  C3, amended, at an empty configuration directory for the stage environment, and at
  a stage document with a malformed record.
\<close>

theorem initial_load_fail_safe_witness:
  "Map.empty (configFileName ''stage'') \<in>
     {None, Some Unreadable, Some Unparsable, Some (Document JUndefined), Some (Document JNull)} \<and>
   config (FeatureFlagService Map.empty (Some ''stage'')) = empty_config \<and>
   getEnabledFeatures (FeatureFlagService Map.empty (Some ''stage'')) = Inr [] \<and>
   isEnabled (FeatureFlagService Map.empty (Some ''stage'')) ''export_csv'' = Inr False \<and>
   config (FeatureFlagService
       [''features.stage.yml'' \<mapsto> Document (JObj [(''features'', JObj [(''search'', JObj [(''enabled'', JStr ''yes'')])])])]
       (Some ''stage'')) =
     JObj [(''features'', JObj [(''search'', JObj [(''enabled'', JStr ''yes'')])])]"
  using initial_load_fail_safe [of Map.empty "Some ''stage''"]
        initial_load_fail_safe
          [of "[''features.stage.yml'' \<mapsto> Document (JObj [(''features'', JObj [(''search'', JObj [(''enabled'', JStr ''yes'')])])])]"
              "Some ''stage''"]
  by (simp add: configFileName_def)

text \<open>
  C1 as stated fails: a service that loaded \<^verbatim>\<open>{features: {export: {enabled: true}}}\<close>
  answers \<open>True\<close> for \<^verbatim>\<open>export\<close>; after a reload against a directory from which
  the file has gone it answers \<open>False\<close>.
\<close>

theorem reload_failure_counterexample:
  "isEnabled (FeatureFlagService [''features.prod.yml'' \<mapsto> Document (JObj [(''features'', JObj [(''export'', JObj [(''enabled'', JBool True)])])])] (Some ''production'')) ''export'' = Inr True \<and>
   isEnabled (reload Map.empty (FeatureFlagService [''features.prod.yml'' \<mapsto> Document (JObj [(''features'', JObj [(''export'', JObj [(''enabled'', JBool True)])])])] (Some ''production''))) ''export'' = Inr False"
  by (simp add: FeatureFlagService_def reload_def loadConfiguration_def configFileName_def isEnabled_def not_loaded_def js_or_def empty_config_def)

text \<open>
  C1, amended.  \<^verbatim>\<open>reload()\<close> is \<^verbatim>\<open>loadConfiguration()\<close> and replaces the
  configuration every time: when the source is missing or unparsable, by the empty
  manifest, so that \<^verbatim>\<open>isEnabled(n)\<close> is \<open>False\<close> for every name afterwards; when
  the source parses, by the parsed document.  The environment is kept.
\<close>

theorem reload_replaces_state:
  "(d (configFileName (environment s)) \<in>
      {None, Some Unreadable, Some Unparsable, Some (Document JUndefined), Some (Document JNull)} \<longrightarrow>
      config (reload d s) = empty_config \<and> (\<forall>n. isEnabled (reload d s) n = Inr False)) \<and>
   (\<forall>v. d (configFileName (environment s)) = Some (Document v) \<and> v \<noteq> JUndefined \<and> v \<noteq> JNull \<longrightarrow>
      config (reload d s) = v) \<and>
   environment (reload d s) = environment s"
  unfolding reload_def
  using load_failure [of d s] load_success [of d s] load_environment [of d s]
  by (auto simp: empty_config_isEnabled)

text \<open>C1, amended, at a failed reload and at a successful one.\<close>

theorem reload_replaces_state_witness:
  "isEnabled (FeatureFlagService
       [''features.stage.yml'' \<mapsto> Document (JObj [(''features'', JObj [(''export'', JObj [(''enabled'', JBool True)])])])]
       (Some ''stage'')) ''export'' = Inr True \<and>
   config (reload Map.empty (FeatureFlagService
       [''features.stage.yml'' \<mapsto> Document (JObj [(''features'', JObj [(''export'', JObj [(''enabled'', JBool True)])])])]
       (Some ''stage''))) = empty_config \<and>
   isEnabled (reload Map.empty (FeatureFlagService
       [''features.stage.yml'' \<mapsto> Document (JObj [(''features'', JObj [(''export'', JObj [(''enabled'', JBool True)])])])]
       (Some ''stage''))) ''export'' = Inr False \<and>
   config (reload [''features.stage.yml'' \<mapsto> Document (JObj [(''features'', JObj [])])] (FeatureFlagService
       [''features.stage.yml'' \<mapsto> Document (JObj [(''features'', JObj [(''export'', JObj [(''enabled'', JBool True)])])])]
       (Some ''stage''))) = JObj [(''features'', JObj [])] \<and>
   environment (reload Map.empty (FeatureFlagService
       [''features.stage.yml'' \<mapsto> Document (JObj [(''features'', JObj [(''export'', JObj [(''enabled'', JBool True)])])])]
       (Some ''stage''))) = ''stage''"
proof -
  let ?s = "FeatureFlagService
       [''features.stage.yml'' \<mapsto> Document (JObj [(''features'', JObj [(''export'', JObj [(''enabled'', JBool True)])])])]
       (Some ''stage'')"
  have e: "environment ?s = ''stage''"
    by (simp add: FeatureFlagService_def load_environment)
  have c: "config ?s = JObj [(''features'', JObj [(''export'', JObj [(''enabled'', JBool True)])])]"
    unfolding FeatureFlagService_def by (rule load_success) (simp_all add: configFileName_def)
  have before: "isEnabled ?s ''export'' = Inr True"
    by (simp add: isEnabled_def not_loaded_def c)
  have gone: "Map.empty (configFileName (environment ?s)) \<in>
     {None, Some Unreadable, Some Unparsable, Some (Document JUndefined), Some (Document JNull)}"
    by simp
  have edited: "[''features.stage.yml'' \<mapsto> Document (JObj [(''features'', JObj [])])]
                  (configFileName (environment ?s)) = Some (Document (JObj [(''features'', JObj [])]))"
    by (simp add: e configFileName_def)
  from reload_replaces_state [of Map.empty ?s] gone e
  have 1: "config (reload Map.empty ?s) = empty_config \<and>
           isEnabled (reload Map.empty ?s) ''export'' = Inr False \<and>
           environment (reload Map.empty ?s) = ''stage''"
    by simp
  from reload_replaces_state [of "[''features.stage.yml'' \<mapsto> Document (JObj [(''features'', JObj [])])]" ?s] edited
  have 2: "config (reload [''features.stage.yml'' \<mapsto> Document (JObj [(''features'', JObj [])])] ?s) =
             JObj [(''features'', JObj [])]"
    by simp
  from before 1 2 show ?thesis by simp
qed

section \<open>Metadata does not gate\<close>

lemma filter_keys_Inr:
  "\<forall>k\<in>set ks. \<exists>b. p k = Inr b \<Longrightarrow>
   filter_keys p ks = Inr (filter (\<lambda>k. p k = Inr True) ks)"
  by (induction ks) (auto split: sum.splits)

lemma filter_keys_Inl:
  "k \<in> set ks \<Longrightarrow> p k = Inl e \<Longrightarrow> filter_keys p ks = Inl TypeError"
proof (induction ks)
  case Nil
  then show ?case by simp
next
  case (Cons a ks)
  then show ?case
    by (cases "p a"; cases "filter_keys p ks") (auto intro: error.exhaust)
qed

lemma filter_keys_set:
  "map_sum id set (filter_keys p ks) =
     (if \<exists>k\<in>set ks. p k = Inl TypeError then Inl TypeError
      else Inr {k \<in> set ks. p k = Inr True})"
proof (cases "\<exists>k\<in>set ks. p k = Inl TypeError")
  case True
  then show ?thesis
    using filter_keys_Inl [of _ ks p TypeError] by auto
next
  case False
  have "\<exists>b. p k = Inr b" if "k \<in> set ks" for k
  proof (cases "p k")
    case (Inl e)
    then have "p k = Inl TypeError" by (cases e) simp
    with that False show ?thesis by blast
  next
    case (Inr b)
    then show ?thesis by blast
  qed
  then have "filter_keys p ks = Inr (filter (\<lambda>k. p k = Inr True) ks)"
    by (intro filter_keys_Inr) blast
  then show ?thesis
    using False by auto
qed

lemma get_prop_features_obj:
  "get_prop c ''features'' = Inr (JObj M) \<Longrightarrow> truthy c"
  by (cases c) (auto split: option.splits if_splits)

lemma getEnabledFeatures_obj:
  assumes "get_prop (config s) ''features'' = Inr (JObj M)"
  shows "getEnabledFeatures s = filter_keys (enabled_strictly (JObj M)) (map fst M)"
  using assms get_prop_features_obj [OF assms]
  by (simp add: getEnabledFeatures_def not_loaded_def)

lemma enabled_strictly_obj:
  "k \<in> fst ` set M \<Longrightarrow>
   enabled_strictly (JObj M) k =
     (case map_option (\<lambda>r. get_prop r ''enabled'') (map_of M k) of
        Some (Inr en) \<Rightarrow> Inr (en = JBool True)
      | _ \<Rightarrow> Inl TypeError)"
  by (cases "map_of M k")
     (auto simp: enabled_strictly_def map_of_eq_None_iff split: sum.splits intro: error.exhaust)

text \<open>
  C9.  Two configurations whose feature maps have the same flag names and, under every
  name, the same \<^verbatim>\<open>enabled\<close> field (whatever their \<^verbatim>\<open>description\<close>,
  \<^verbatim>\<open>owner\<close> and \<^verbatim>\<open>status\<close> are) give the same \<^verbatim>\<open>isEnabled(n)\<close> for
  every name and the same set of names from \<^verbatim>\<open>getEnabledFeatures()\<close>.
\<close>

theorem metadata_never_gates:
  assumes "get_prop (config s) ''features'' = Inr (JObj M)"
      and "get_prop (config s') ''features'' = Inr (JObj M')"
      and names: "fst ` set M = fst ` set M'"
      and enabled: "\<And>k. map_option (\<lambda>r. get_prop r ''enabled'') (map_of M k) =
                         map_option (\<lambda>r. get_prop r ''enabled'') (map_of M' k)"
  shows "isEnabled s n = isEnabled s' n \<and>
         map_sum id set (getEnabledFeatures s) = map_sum id set (getEnabledFeatures s')"
proof -
  have "(\<exists>rec. map_of M k = Some rec \<and> get_prop rec ''enabled'' = Inr (JBool True)) =
        (\<exists>rec. map_of M' k = Some rec \<and> get_prop rec ''enabled'' = Inr (JBool True))" for k
    using enabled [of k] by (cases "map_of M k"; cases "map_of M' k") auto
  then have 1: "isEnabled s n = isEnabled s' n"
    using assms(1,2) by (simp add: isEnabled_char)
  have p: "enabled_strictly (JObj M) k = enabled_strictly (JObj M') k" if "k \<in> set (map fst M)" for k
    using that names enabled [of k] by (simp add: enabled_strictly_obj)
  have keys: "set (map fst M') = set (map fst M)"
    using names by simp
  have thrown: "(\<exists>k\<in>set (map fst M). enabled_strictly (JObj M) k = Inl TypeError) =
                (\<exists>k\<in>set (map fst M). enabled_strictly (JObj M') k = Inl TypeError)"
    by (rule bex_cong [OF refl]) (simp only: p)
  have kept: "{k \<in> set (map fst M). enabled_strictly (JObj M) k = Inr True} =
              {k \<in> set (map fst M). enabled_strictly (JObj M') k = Inr True}"
    by (rule Collect_cong) (rule conj_cong [OF refl], simp only: p)
  have "map_sum id set (filter_keys (enabled_strictly (JObj M)) (map fst M)) =
        map_sum id set (filter_keys (enabled_strictly (JObj M')) (map fst M'))"
    unfolding filter_keys_set keys thrown kept ..
  then have 2: "map_sum id set (getEnabledFeatures s) = map_sum id set (getEnabledFeatures s')"
    using assms(1,2) by (simp add: getEnabledFeatures_obj)
  from 1 2 show ?thesis by simp
qed


text \<open>C9 at two manifests that differ in metadata and in the order of their flags.\<close>

theorem metadata_never_gates_witness:
  "isEnabled \<lparr>environment = ''stage'', config = JObj [(''features'', JObj
       [(''export'', JObj [(''enabled'', JBool True), (''description'', JStr ''CSV export''), (''owner'', JStr ''dev2''), (''status'', JStr ''live'')]),
        (''search'', JObj [(''enabled'', JBool False), (''status'', JStr ''in_development'')])])], configPath = None\<rparr> ''export'' =
   isEnabled \<lparr>environment = ''stage'', config = JObj [(''features'', JObj
       [(''search'', JObj [(''enabled'', JBool False)]),
        (''export'', JObj [(''status'', JStr ''in_development''), (''enabled'', JBool True)])])], configPath = None\<rparr> ''export'' \<and>
   map_sum id set (getEnabledFeatures \<lparr>environment = ''stage'', config = JObj [(''features'', JObj
       [(''export'', JObj [(''enabled'', JBool True), (''description'', JStr ''CSV export''), (''owner'', JStr ''dev2''), (''status'', JStr ''live'')]),
        (''search'', JObj [(''enabled'', JBool False), (''status'', JStr ''in_development'')])])], configPath = None\<rparr>) =
   map_sum id set (getEnabledFeatures \<lparr>environment = ''stage'', config = JObj [(''features'', JObj
       [(''search'', JObj [(''enabled'', JBool False)]),
        (''export'', JObj [(''status'', JStr ''in_development''), (''enabled'', JBool True)])])], configPath = None\<rparr>)"
  by (rule metadata_never_gates
        [where M = "[(''export'', JObj [(''enabled'', JBool True), (''description'', JStr ''CSV export''), (''owner'', JStr ''dev2''), (''status'', JStr ''live'')]),
                     (''search'', JObj [(''enabled'', JBool False), (''status'', JStr ''in_development'')])]"
           and M' = "[(''search'', JObj [(''enabled'', JBool False)]),
                      (''export'', JObj [(''status'', JStr ''in_development''), (''enabled'', JBool True)])]"])
     auto

section \<open>The client mirror\<close>

text \<open>
  C6 at the document \<^verbatim>\<open>{features: {beta: {enabled: 1}}}\<close>: the server lists no
  enabled feature, the client lists \<^verbatim>\<open>beta\<close>, which its own \<^verbatim>\<open>isEnabled\<close>
  reports as disabled.  The client's filter tests \<^verbatim>\<open>enabled\<close> for truthiness where
  the server's filter and both \<^verbatim>\<open>isEnabled\<close> methods test \<^verbatim>\<open>=== true\<close>.
\<close>

theorem client_enabled_list_divergence:
  "getEnabledFeatures (FeatureFlagService
       [''features.prod.yml'' \<mapsto> Document (JObj [(''features'', JObj [(''beta'', JObj [(''enabled'', JNum 1)])])])]
       (Some ''production'')) = Inr [] \<and>
   getEnabledFeatures_client (init ''/production/index.html''
       (Responded True (Json (JObj [(''features'', JObj [(''beta'', JObj [(''enabled'', JNum 1)])])])))
       None FeatureFlagManager) = Inr [''beta''] \<and>
   isEnabled_client (init ''/production/index.html''
       (Responded True (Json (JObj [(''features'', JObj [(''beta'', JObj [(''enabled'', JNum 1)])])])))
       None FeatureFlagManager) ''beta'' = Inr False"
  by (simp add: FeatureFlagService_def loadConfiguration_def configFileName_def js_or_def
        getEnabledFeatures_def not_loaded_def enabled_strictly_def
        init_def Let_def FeatureFlagManager_def getEnabledFeatures_client_def enabled_truthy_def
        isEnabled_client_def)

text \<open>On one feature map, \<^verbatim>\<open>isEnabled\<close> of the two tiers agrees.\<close>

lemma client_mirrors_lookup:
  assumes "get_prop (config s) ''features'' = Inr fs" "truthy (config s)" "truthy fs" "features m = fs"
  shows "isEnabled_client m n = isEnabled s n"
  using assms
  by (simp add: isEnabled_client_def isEnabled_def not_loaded_def)

lemma init_failure:
  assumes "f = FetchThrows \<or> (\<exists>b. f = Responded False b) \<or> f = Responded True NotJson \<or>
           f = Responded True (Json JNull)"
  shows "features (init p f env m) = JObj []"
  using assms by (auto simp: init_def Let_def)

lemma empty_features_isEnabled: "features m = JObj [] \<Longrightarrow> isEnabled_client m n = Inr False"
  by (simp add: isEnabled_client_def)

lemma empty_features_sweep:
  "features m = JObj [] \<Longrightarrow>
   applyFeatureFlags m els =
     Inr (map (\<lambda>el. case data_feature el of
                       None \<Rightarrow> el
                     | Some n \<Rightarrow> el\<lparr>display := ''none'',
                                    classList := classList_add ''feature-disabled'' (classList el)\<rparr>) els)"
  by (induction els) (auto simp: empty_features_isEnabled split: option.splits)

text \<open>
  C7.  When the fetch fails (the promise rejects, the response is not OK, or its body
  is not JSON or is \<^verbatim>\<open>null\<close>), \<^verbatim>\<open>init\<close> leaves the empty feature map:
  \<^verbatim>\<open>isEnabled(n)\<close> then returns \<open>False\<close> for every name without throwing, and
  \<^verbatim>\<open>applyFeatureFlags()\<close> completes and sets \<^verbatim>\<open>display: none\<close> on every element
  that carries a \<^verbatim>\<open>data-feature\<close> attribute.
\<close>

theorem fetch_failure_hides_everything:
  assumes "f = FetchThrows \<or> (\<exists>b. f = Responded False b) \<or> f = Responded True NotJson \<or>
           f = Responded True (Json JNull)"
  shows "(\<forall>n. isEnabled_client (init p f env m) n = Inr False) \<and>
         (\<exists>els'. applyFeatureFlags (init p f env m) els = Inr els' \<and>
                  map data_feature els' = map data_feature els \<and>
                  (\<forall>el\<in>set els'. data_feature el \<noteq> None \<longrightarrow> display el = ''none''))"
proof -
  have e: "features (init p f env m) = JObj []"
    using assms by (rule init_failure)
  have "map data_feature (map (\<lambda>el. case data_feature el of
                       None \<Rightarrow> el
                     | Some n \<Rightarrow> el\<lparr>display := ''none'',
                                    classList := classList_add ''feature-disabled'' (classList el)\<rparr>) els) = map data_feature els"
    by (induction els) (auto split: option.splits)
  then show ?thesis
    using e by (auto simp: empty_features_isEnabled empty_features_sweep split: option.splits)
qed

text \<open>C7 at a non-OK response and a page with two tagged elements and an untagged one.\<close>

theorem fetch_failure_hides_everything_witness:
  "isEnabled_client (init ''/stage/index.html'' (Responded False NotJson) None FeatureFlagManager) ''search'' = Inr False \<and>
   isEnabled_client (init ''/stage/index.html'' (Responded False NotJson) None FeatureFlagManager) ''export'' = Inr False \<and>
   applyFeatureFlags (init ''/stage/index.html'' (Responded False NotJson) None FeatureFlagManager)
     [\<lparr>data_feature = Some ''search'', display = [], classList = []\<rparr>,
      \<lparr>data_feature = None, display = [], classList = []\<rparr>,
      \<lparr>data_feature = Some ''export'', display = ''block'', classList = [''panel'']\<rparr>] =
   Inr [\<lparr>data_feature = Some ''search'', display = ''none'', classList = [''feature-disabled'']\<rparr>,
        \<lparr>data_feature = None, display = [], classList = []\<rparr>,
        \<lparr>data_feature = Some ''export'', display = ''none'', classList = [''panel'', ''feature-disabled'']\<rparr>]"
  using fetch_failure_hides_everything [of "Responded False NotJson" "''/stage/index.html''" None FeatureFlagManager
      "[\<lparr>data_feature = Some ''search'', display = [], classList = []\<rparr>,
      \<lparr>data_feature = None, display = [], classList = []\<rparr>,
      \<lparr>data_feature = Some ''export'', display = ''block'', classList = [''panel'']\<rparr>]"]
  by (simp add: init_def classList_add_def isEnabled_client_def)

section \<open>Route loading and the mount pass\<close>

lemma isEnabled_total: "isEnabled s n = Inr True \<or> isEnabled s n = Inr False"
proof -
  obtain b where "isEnabled s n = Inr b"
    using isEnabled_char by blast
  then show ?thesis by (cases b) auto
qed

lemma getFeatureRouter_char:
  "getFeatureRouter ms s n =
     Inr (if isEnabled s n = Inr True
          then (case ms n of Some (Exports r) \<Rightarrow> Some r | _ \<Rightarrow> None)
          else None)"
  using isEnabled_total [of s n]
  by (auto simp: getFeatureRouter_def split: option.splits module_file.splits)

lemma mount_char:
  "mount ms s (n, p) app =
     Inr (app @ (if isEnabled s n = Inr True
                 then (case ms n of Some (Exports r) \<Rightarrow> [Layer p r] | _ \<Rightarrow> [])
                 else []))"
  by (simp add: mount_def getFeatureRouter_char app_use_def split: option.splits module_file.splits)

text \<open>
  A mount pass never throws; it appends, in the order of the mount calls, one layer for
  each capability whose flag is enabled and whose route module loads.
\<close>

lemma mount_pass_layers:
  "mount_pass ms s caps app =
     Inr (app @ concat (map (\<lambda>(n, p). if isEnabled s n = Inr True
                                        then (case ms n of Some (Exports r) \<Rightarrow> [Layer p r] | _ \<Rightarrow> [])
                                        else []) caps))"
proof (induction caps arbitrary: app)
  case Nil
  then show ?case by simp
next
  case (Cons cap caps)
  obtain n p where cap: "cap = (n, p)" by (cases cap)
  show ?case
    by (simp add: cap mount_char Cons.IH)
qed

text \<open>The prefixes bound by one mount call, and by a pass.\<close>

lemma bound_prefix:
  "set (map layer_prefix
          (if isEnabled s n = Inr True
           then (case ms n of Some (Exports r) \<Rightarrow> [Layer p r] | _ \<Rightarrow> [])
           else [])) =
   (if isEnabled s n = Inr True \<and> (\<exists>r. ms n = Some (Exports r)) then {p} else {})"
proof (cases "isEnabled s n = Inr True")
  case False
  then show ?thesis by simp
next
  case True
  show ?thesis
  proof (cases "ms n")
    case None
    with True show ?thesis by simp
  next
    case (Some mf)
    with True show ?thesis by (cases mf) simp_all
  qed
qed

lemma mount_pass_prefixes:
  "\<exists>app'. mount_pass ms s caps app = Inr app' \<and>
          set (map layer_prefix app') =
            set (map layer_prefix app) \<union>
            {p. \<exists>n r. (n, p) \<in> set caps \<and> isEnabled s n = Inr True \<and> ms n = Some (Exports r)}"
proof -
  let ?bound = "\<lambda>(n, p). if isEnabled s n = Inr True
                         then (case ms n of Some (Exports r) \<Rightarrow> [Layer p r] | _ \<Rightarrow> [])
                         else []"
  have "set (map layer_prefix (concat (map ?bound caps))) =
          {p. \<exists>n r. (n, p) \<in> set caps \<and> isEnabled s n = Inr True \<and> ms n = Some (Exports r)}"
  proof (induction caps)
    case Nil
    then show ?case by simp
  next
    case (Cons cap caps)
    obtain n p where cap: "cap = (n, p)" by (cases cap)
    have "concat (map ?bound (cap # caps)) = ?bound (n, p) @ concat (map ?bound caps)"
      by (simp add: cap)
    then have "set (map layer_prefix (concat (map ?bound (cap # caps)))) =
               set (map layer_prefix (?bound (n, p))) \<union>
               set (map layer_prefix (concat (map ?bound caps)))"
      by (simp only: map_append set_append)
    also have "\<dots> = (if isEnabled s n = Inr True \<and> (\<exists>r. ms n = Some (Exports r)) then {p} else {}) \<union>
                     {p. \<exists>n r. (n, p) \<in> set caps \<and> isEnabled s n = Inr True \<and> ms n = Some (Exports r)}"
      by (simp only: Cons.IH bound_prefix prod.case)
    also have "\<dots> = {p. \<exists>n r. (n, p) \<in> set (cap # caps) \<and> isEnabled s n = Inr True \<and> ms n = Some (Exports r)}"
      by (auto simp: cap)
    finally show ?case .
  qed
  then have "set (map layer_prefix (app @ concat (map ?bound caps))) =
            set (map layer_prefix app) \<union>
            {p. \<exists>n r. (n, p) \<in> set caps \<and> isEnabled s n = Inr True \<and> ms n = Some (Exports r)}"
    by (simp only: map_append set_append)
  with mount_pass_layers [of ms s caps app] show ?thesis
    by blast
qed

text \<open>The routing table of the server script.\<close>

lemma server_table:
  "server ms s t =
     Inr (middleware @ core_routes t @
          (if isEnabled s ''advanced_search'' = Inr True
           then (case ms ''advanced_search'' of Some (Exports r) \<Rightarrow> [Layer [''api'', ''search''] r] | _ \<Rightarrow> [])
           else []) @
          (if isEnabled s ''export_csv'' = Inr True
           then (case ms ''export_csv'' of Some (Exports r) \<Rightarrow> [Layer [''api'', ''export''] r] | _ \<Rightarrow> [])
           else []) @
          [Layer [] not_found, ErrorHandler error_handler])"
  by (simp add: server_def mount_char app_use_def app_use_error_def)

lemma server_is_mount_pass:
  "server ms s t =
     (case mount_pass ms s server_capabilities (middleware @ core_routes t) of
        Inl e \<Rightarrow> Inl e
      | Inr app \<Rightarrow> Inr (app_use_error error_handler (app_use [] not_found app)))"
  by (simp add: server_def server_capabilities_def split: sum.splits)

text \<open>The script gives its two capabilities different prefixes, neither under the other.\<close>

lemma server_prefixes_apart:
  "map snd server_capabilities = [[''api'', ''search''], [''api'', ''export'']] \<and>
   \<not> covers [''api'', ''search''] [''api'', ''export''] \<and>
   \<not> covers [''api'', ''export''] [''api'', ''search'']"
  by (simp add: server_capabilities_def covers_def)

lemma covers_append: "covers pre p = (\<exists>rest. p = pre @ rest)"
  unfolding covers_def by (metis append_eq_conv_conj append_take_drop_id)

text \<open>Dispatch through the parts of the routing table.\<close>

lemma strip_fields:
  "req_method (strip pre req) = req_method req"
  "body_rejected (strip pre req) = body_rejected req"
  "req_path (strip pre req) = drop (length pre) (req_path req)"
  by (simp_all add: strip_def)

lemma on_error_append:
  "on_error (xs @ ys) req = (case on_error xs req of Some r \<Rightarrow> Some r | None \<Rightarrow> on_error ys req)"
proof (induction xs)
  case Nil
  then show ?case by simp
next
  case (Cons l xs)
  then show ?case by (cases l) simp_all
qed

lemma middleware_dispatch:
  "dispatch (middleware @ ls) req =
     (if req_method req = ''OPTIONS'' then Some (Response 204 [])
      else if body_rejected req then on_error ls req
      else dispatch ls req)"
  by (simp add: middleware_def app_use_def cors_def express_json_def covers_def strip_fields)

lemma core_routes_on_error: "on_error (core_routes t @ ls) req = on_error ls req"
  by (simp add: core_routes_def)

lemma core_routes_pass:
  assumes "covers [''api'', ''search''] (req_path req) \<or> covers [''api'', ''export''] (req_path req)"
  shows "dispatch (core_routes t @ ls) req = dispatch ls req"
  using assms by (auto simp: covers_append core_routes_def covers_def)

lemma covers_Nil: "covers [] p"
  by (simp add: covers_def)

lemmas final_handlers = covers_Nil not_found_def error_handler_def

lemma other_capability_pass:
  assumes "B = [] \<or> (\<exists>r. B = [Layer q r])" and "\<not> covers q (req_path req)"
  shows "dispatch (B @ ls) req = dispatch ls req" and "on_error (B @ ls) req = on_error ls req"
  using assms by auto

lemma capability_on_error:
  assumes "B = [] \<or> (\<exists>r. B = [Layer q r])"
  shows "on_error (B @ ls) req = on_error ls req"
  using assms by auto

lemma prefixes_exclusive:
  "covers [''api'', ''search''] p \<Longrightarrow> \<not> covers [''api'', ''export''] p"
  "covers [''api'', ''export''] p \<Longrightarrow> \<not> covers [''api'', ''search''] p"
  by (auto simp: covers_append)

text \<open>
  C10.  For a capability whose flag is enabled but whose route module does not exist or
  throws while loading, \<^verbatim>\<open>getFeatureRouter(name)\<close> returns \<^verbatim>\<open>null\<close> and raises
  nothing; the mount call leaves the routing table as it was, and the server script
  completes its start-up.
\<close>

theorem missing_route_module_left_unmounted:
  assumes "isEnabled s n = Inr True" and "ms n = None \<or> ms n = Some LoadThrows"
  shows "getFeatureRouter ms s n = Inr None \<and>
         mount ms s (n, pre) app = Inr app \<and>
         (\<exists>table. server ms s tasksRouter = Inr table)"
  using assms by (auto simp: getFeatureRouter_char mount_char server_table)

text \<open>C10 at an enabled \<^verbatim>\<open>export_csv\<close> and an empty \<^verbatim>\<open>routes/\<close> directory.\<close>

theorem missing_route_module_left_unmounted_witness:
  "isEnabled \<lparr>environment = ''stage'',
              config = JObj [(''features'', JObj [(''export_csv'', JObj [(''enabled'', JBool True)])])],
              configPath = None\<rparr> ''export_csv'' = Inr True \<and>
   getFeatureRouter Map.empty
     \<lparr>environment = ''stage'',
      config = JObj [(''features'', JObj [(''export_csv'', JObj [(''enabled'', JBool True)])])],
      configPath = None\<rparr> ''export_csv'' = Inr None \<and>
   mount Map.empty
     \<lparr>environment = ''stage'',
      config = JObj [(''features'', JObj [(''export_csv'', JObj [(''enabled'', JBool True)])])],
      configPath = None\<rparr> (''export_csv'', [''api'', ''export'']) (core_routes not_found) =
     Inr (core_routes not_found)"
proof -
  have en: "isEnabled \<lparr>environment = ''stage'',
              config = JObj [(''features'', JObj [(''export_csv'', JObj [(''enabled'', JBool True)])])],
              configPath = None\<rparr> ''export_csv'' = Inr True"
    by (simp add: isEnabled_def not_loaded_def)
  show ?thesis
    using en missing_route_module_left_unmounted [OF en, of Map.empty "[''api'', ''export'']" "core_routes not_found" not_found]
    by simp
qed

lemma bound_layers_cases:
  fixes ms :: modules
  defines "B \<equiv> \<lambda>s n p. (if isEnabled s n = Inr True
                          then (case ms n of Some (Exports r) \<Rightarrow> [Layer p r] | _ \<Rightarrow> [])
                          else [])"
  shows "B s n p = [] \<or> (\<exists>r. B s n p = [Layer p r])"
    and "isEnabled s n = Inr False \<Longrightarrow> B s n p = []"
    and "isEnabled s n = Inr True \<Longrightarrow> ms n = Some (Exports h) \<Longrightarrow> B s n p = [Layer p h]"
  unfolding B_def by (auto split: option.splits module_file.splits)

text \<open>
  C4 as stated fails twice.  With \<^verbatim>\<open>export_csv\<close> enabled and its route module
  missing, nothing is bound for it and a request under \<^verbatim>\<open>/api/export\<close> gets 404.
  With \<^verbatim>\<open>advanced_search\<close> absent from the manifest, an \<^verbatim>\<open>OPTIONS\<close> request
  under \<^verbatim>\<open>/api/search\<close> is answered by the CORS middleware with 204, and a request
  whose body the JSON parser rejects is answered by the error handler with 500.
\<close>

theorem enabled_capability_unbound_counterexample:
  "isEnabled \<lparr>environment = ''stage'',
              config = JObj [(''features'', JObj [(''export_csv'', JObj [(''enabled'', JBool True)])])],
              configPath = None\<rparr> ''export_csv'' = Inr True \<and>
   isEnabled \<lparr>environment = ''stage'',
              config = JObj [(''features'', JObj [(''export_csv'', JObj [(''enabled'', JBool True)])])],
              configPath = None\<rparr> ''advanced_search'' = Inr False \<and>
   server Map.empty
     \<lparr>environment = ''stage'',
      config = JObj [(''features'', JObj [(''export_csv'', JObj [(''enabled'', JBool True)])])],
      configPath = None\<rparr> not_found =
     Inr (middleware @ core_routes not_found @ [Layer [] not_found, ErrorHandler error_handler]) \<and>
   dispatch (middleware @ core_routes not_found @ [Layer [] not_found, ErrorHandler error_handler])
     \<lparr>req_method = ''GET'', req_path = [''api'', ''export'', ''csv''], body_rejected = False\<rparr> =
     Some (Response 404 ''Not Found'') \<and>
   dispatch (middleware @ core_routes not_found @ [Layer [] not_found, ErrorHandler error_handler])
     \<lparr>req_method = ''OPTIONS'', req_path = [''api'', ''search''], body_rejected = False\<rparr> =
     Some (Response 204 []) \<and>
   dispatch (middleware @ core_routes not_found @ [Layer [] not_found, ErrorHandler error_handler])
     \<lparr>req_method = ''POST'', req_path = [''api'', ''search''], body_rejected = True\<rparr> =
     Some (Response 500 ''Internal Server Error'')"
  by (simp add: isEnabled_def not_loaded_def server_def mount_def getFeatureRouter_def app_use_def
        app_use_error_def middleware_def cors_def express_json_def error_handler_def
        core_routes_def covers_def not_found_def route_def strip_def)

text \<open>
  C4, amended.  In the server's routing table, built from the manifest that is active
  when the mount pass runs, for each of the two capabilities: an \<^verbatim>\<open>OPTIONS\<close>
  request is answered by the CORS middleware with 204 and a request whose body the JSON
  parser rejects by the error handler with 500, whatever the flag is.  For every other
  request under the capability's prefix: if the flag is disabled or absent, no layer is
  bound at the prefix and the 404 handler answers \<^verbatim>\<open>Not Found\<close>; if the flag is
  enabled and the route module exports a router, that router is bound at the prefix and
  is handed the request, and its response is the answer (404 when it passes the request
  on, 500 when it raises).  No answer to a request under a disabled prefix is 403.
\<close>

theorem server_mounts_by_flag:
  assumes "(name, pre) \<in> set server_capabilities"
  shows "\<exists>app. server ms s tasksRouter = Inr app \<and>
           (isEnabled s name = Inr False \<longrightarrow>
              (\<forall>g. Layer pre g \<notin> set app) \<and>
              (\<forall>req. covers pre (req_path req) \<longrightarrow>
                     dispatch app req =
                       Some (if req_method req = ''OPTIONS'' then Response 204 []
                             else if body_rejected req then Response 500 ''Internal Server Error''
                             else Response 404 ''Not Found''))) \<and>
           (\<forall>h. isEnabled s name = Inr True \<and> ms name = Some (Exports h) \<longrightarrow>
              Layer pre h \<in> set app \<and>
              (\<forall>req. covers pre (req_path req) \<longrightarrow>
                     dispatch app req =
                       Some (if req_method req = ''OPTIONS'' then Response 204 []
                             else if body_rejected req then Response 500 ''Internal Server Error''
                             else (case h (strip pre req) of
                                     Respond r \<Rightarrow> r
                                   | Next \<Rightarrow> Response 404 ''Not Found''
                                   | Raise \<Rightarrow> Response 500 ''Internal Server Error''))))"
proof -
  define S where "S = (if isEnabled s ''advanced_search'' = Inr True
                 then (case ms ''advanced_search'' of Some (Exports r) \<Rightarrow> [Layer [''api'', ''search''] r] | _ \<Rightarrow> [])
                 else [])"
  define E where "E = (if isEnabled s ''export_csv'' = Inr True
                 then (case ms ''export_csv'' of Some (Exports r) \<Rightarrow> [Layer [''api'', ''export''] r] | _ \<Rightarrow> [])
                 else [])"
  let ?app = "middleware @ core_routes tasksRouter @ S @ E @ [Layer [] not_found, ErrorHandler error_handler]"
  have app: "server ms s tasksRouter = Inr ?app"
    unfolding S_def E_def by (rule server_table)
  have S: "S = [] \<or> (\<exists>r. S = [Layer [''api'', ''search''] r])"
    unfolding S_def by (rule bound_layers_cases(1))
  have E: "E = [] \<or> (\<exists>r. E = [Layer [''api'', ''export''] r])"
    unfolding E_def by (rule bound_layers_cases(1))
  have S_off: "S = []" if "isEnabled s ''advanced_search'' = Inr False"
    unfolding S_def using that by (rule bound_layers_cases(2))
  have E_off: "E = []" if "isEnabled s ''export_csv'' = Inr False"
    unfolding E_def using that by (rule bound_layers_cases(2))
  have S_on: "S = [Layer [''api'', ''search''] h]"
    if "isEnabled s ''advanced_search'' = Inr True" "ms ''advanced_search'' = Some (Exports h)" for h
    unfolding S_def using that by (rule bound_layers_cases(3))
  have E_on: "E = [Layer [''api'', ''export''] h]"
    if "isEnabled s ''export_csv'' = Inr True" "ms ''export_csv'' = Some (Exports h)" for h
    unfolding E_def using that by (rule bound_layers_cases(3))
  have tail_off: "dispatch (S @ E @ [Layer [] not_found, ErrorHandler error_handler]) req =
                    Some (Response 404 ''Not Found'')"
    if "covers [''api'', ''search''] (req_path req) \<and> S = [] \<or>
        covers [''api'', ''export''] (req_path req) \<and> E = []" for req
  proof -
    from that consider
        (search) "covers [''api'', ''search''] (req_path req)" "S = []"
      | (export) "covers [''api'', ''export''] (req_path req)" "E = []"
      by blast
    then show ?thesis
    proof cases
      case search
      have "\<not> covers [''api'', ''export''] (req_path req)"
        using search(1) by (rule prefixes_exclusive)
      with E have "dispatch (E @ [Layer [] not_found, ErrorHandler error_handler]) req =
                   dispatch [Layer [] not_found, ErrorHandler error_handler] req"
        by (rule other_capability_pass)
      then show ?thesis
        by (simp add: search(2) final_handlers)
    next
      case export
      have "\<not> covers [''api'', ''search''] (req_path req)"
        using export(1) by (rule prefixes_exclusive)
      with S have "dispatch (S @ E @ [Layer [] not_found, ErrorHandler error_handler]) req =
                   dispatch (E @ [Layer [] not_found, ErrorHandler error_handler]) req"
        by (rule other_capability_pass)
      then show ?thesis
        by (simp add: export(2) final_handlers)
    qed
  qed
  have tail_err: "on_error (core_routes tasksRouter @ S @ E @ [Layer [] not_found, ErrorHandler error_handler]) req =
                    Some (Response 500 ''Internal Server Error'')" for req
    by (simp add: core_routes_on_error capability_on_error [OF S] capability_on_error [OF E] final_handlers)
  have off: "dispatch ?app req =
               Some (if req_method req = ''OPTIONS'' then Response 204 []
                     else if body_rejected req then Response 500 ''Internal Server Error''
                     else Response 404 ''Not Found'')"
    if "covers [''api'', ''search''] (req_path req) \<and> S = [] \<or>
        covers [''api'', ''export''] (req_path req) \<and> E = []" for req
  proof -
    from that have "covers [''api'', ''search''] (req_path req) \<or> covers [''api'', ''export''] (req_path req)"
      by blast
    then have "dispatch (core_routes tasksRouter @ S @ E @ [Layer [] not_found, ErrorHandler error_handler]) req =
               dispatch (S @ E @ [Layer [] not_found, ErrorHandler error_handler]) req"
      by (rule core_routes_pass)
    then show ?thesis
      by (simp add: middleware_dispatch tail_err tail_off [OF that])
  qed
  have S_answer: "dispatch ?app req =
               Some (if req_method req = ''OPTIONS'' then Response 204 []
                     else if body_rejected req then Response 500 ''Internal Server Error''
                     else (case h (strip [''api'', ''search''] req) of
                             Respond r \<Rightarrow> r
                           | Next \<Rightarrow> Response 404 ''Not Found''
                           | Raise \<Rightarrow> Response 500 ''Internal Server Error''))"
    if c: "covers [''api'', ''search''] (req_path req)" and s: "S = [Layer [''api'', ''search''] h]" for req h
  proof -
    have core: "dispatch (core_routes tasksRouter @ S @ E @ [Layer [] not_found, ErrorHandler error_handler]) req =
               dispatch (S @ E @ [Layer [] not_found, ErrorHandler error_handler]) req"
      by (rule core_routes_pass) (use c in simp)
    have nc: "\<not> covers [''api'', ''export''] (req_path req)"
      using c by (rule prefixes_exclusive)
    have "dispatch (S @ E @ [Layer [] not_found, ErrorHandler error_handler]) req =
            Some (case h (strip [''api'', ''search''] req) of
                    Respond r \<Rightarrow> r
                  | Next \<Rightarrow> Response 404 ''Not Found''
                  | Raise \<Rightarrow> Response 500 ''Internal Server Error'')"
      using c other_capability_pass [OF E nc, of "[Layer [] not_found, ErrorHandler error_handler]"]
      by (simp add: s final_handlers split: outcome.splits)
    then show ?thesis
      by (simp add: middleware_dispatch tail_err core)
  qed
  have E_answer: "dispatch ?app req =
               Some (if req_method req = ''OPTIONS'' then Response 204 []
                     else if body_rejected req then Response 500 ''Internal Server Error''
                     else (case h (strip [''api'', ''export''] req) of
                             Respond r \<Rightarrow> r
                           | Next \<Rightarrow> Response 404 ''Not Found''
                           | Raise \<Rightarrow> Response 500 ''Internal Server Error''))"
    if c: "covers [''api'', ''export''] (req_path req)" and e: "E = [Layer [''api'', ''export''] h]" for req h
  proof -
    have core: "dispatch (core_routes tasksRouter @ S @ E @ [Layer [] not_found, ErrorHandler error_handler]) req =
               dispatch (S @ E @ [Layer [] not_found, ErrorHandler error_handler]) req"
      by (rule core_routes_pass) (use c in simp)
    have nc: "\<not> covers [''api'', ''search''] (req_path req)"
      using c by (rule prefixes_exclusive)
    have "dispatch (E @ [Layer [] not_found, ErrorHandler error_handler]) req =
            Some (case h (strip [''api'', ''export''] req) of
                    Respond r \<Rightarrow> r
                  | Next \<Rightarrow> Response 404 ''Not Found''
                  | Raise \<Rightarrow> Response 500 ''Internal Server Error'')"
      using c by (simp add: e final_handlers split: outcome.splits)
    then have "dispatch (S @ E @ [Layer [] not_found, ErrorHandler error_handler]) req =
            Some (case h (strip [''api'', ''export''] req) of
                    Respond r \<Rightarrow> r
                  | Next \<Rightarrow> Response 404 ''Not Found''
                  | Raise \<Rightarrow> Response 500 ''Internal Server Error'')"
      using other_capability_pass(1) [OF S nc, of "E @ [Layer [] not_found, ErrorHandler error_handler]"]
      by simp
    then show ?thesis
      by (simp add: middleware_dispatch tail_err core)
  qed
  have fixed: "Layer pre g \<notin> set (middleware @ core_routes tasksRouter @ [Layer [] not_found, ErrorHandler error_handler])" for g
    using assms by (auto simp: server_capabilities_def middleware_def app_use_def core_routes_def)
  have members: "set ?app = set (middleware @ core_routes tasksRouter @ [Layer [] not_found, ErrorHandler error_handler]) \<union> set S \<union> set E"
    by auto
  from assms consider
      (search) "name = ''advanced_search''" "pre = [''api'', ''search'']"
    | (export) "name = ''export_csv''" "pre = [''api'', ''export'']"
    by (auto simp: server_capabilities_def)
  then have "(isEnabled s name = Inr False \<longrightarrow>
              (\<forall>g. Layer pre g \<notin> set ?app) \<and>
              (\<forall>req. covers pre (req_path req) \<longrightarrow>
                     dispatch ?app req =
                       Some (if req_method req = ''OPTIONS'' then Response 204 []
                             else if body_rejected req then Response 500 ''Internal Server Error''
                             else Response 404 ''Not Found''))) \<and>
           (\<forall>h. isEnabled s name = Inr True \<and> ms name = Some (Exports h) \<longrightarrow>
              Layer pre h \<in> set ?app \<and>
              (\<forall>req. covers pre (req_path req) \<longrightarrow>
                     dispatch ?app req =
                       Some (if req_method req = ''OPTIONS'' then Response 204 []
                             else if body_rejected req then Response 500 ''Internal Server Error''
                             else (case h (strip pre req) of
                                     Respond r \<Rightarrow> r
                                   | Next \<Rightarrow> Response 404 ''Not Found''
                                   | Raise \<Rightarrow> Response 500 ''Internal Server Error''))))"
  proof cases
    case search
    have 1: "(\<forall>g. Layer pre g \<notin> set ?app) \<and>
             (\<forall>req. covers pre (req_path req) \<longrightarrow>
                     dispatch ?app req =
                       Some (if req_method req = ''OPTIONS'' then Response 204 []
                             else if body_rejected req then Response 500 ''Internal Server Error''
                             else Response 404 ''Not Found''))"
      if "isEnabled s name = Inr False"
    proof -
      from that have s: "S = []" using S_off search by simp
      have "Layer pre g \<notin> set ?app" for g
        unfolding members using fixed [of g] E by (auto simp: s search)
      moreover have "dispatch ?app req =
                       Some (if req_method req = ''OPTIONS'' then Response 204 []
                             else if body_rejected req then Response 500 ''Internal Server Error''
                             else Response 404 ''Not Found'')"
        if "covers pre (req_path req)" for req
        using that s search by (intro off) simp
      ultimately show ?thesis by blast
    qed
    have 2: "Layer pre h \<in> set ?app \<and>
             (\<forall>req. covers pre (req_path req) \<longrightarrow>
                     dispatch ?app req =
                       Some (if req_method req = ''OPTIONS'' then Response 204 []
                             else if body_rejected req then Response 500 ''Internal Server Error''
                             else (case h (strip pre req) of
                                     Respond r \<Rightarrow> r
                                   | Next \<Rightarrow> Response 404 ''Not Found''
                                   | Raise \<Rightarrow> Response 500 ''Internal Server Error'')))"
      if "isEnabled s name = Inr True" "ms name = Some (Exports h)" for h
    proof -
      from that have s: "S = [Layer [''api'', ''search''] h]" using S_on search by simp
      have "Layer pre h \<in> set ?app"
        unfolding members by (simp add: s search)
      then show ?thesis
        using S_answer [OF _ s] by (simp add: search)
    qed
    from 1 2 show ?thesis by blast
  next
    case export
    have 1: "(\<forall>g. Layer pre g \<notin> set ?app) \<and>
             (\<forall>req. covers pre (req_path req) \<longrightarrow>
                     dispatch ?app req =
                       Some (if req_method req = ''OPTIONS'' then Response 204 []
                             else if body_rejected req then Response 500 ''Internal Server Error''
                             else Response 404 ''Not Found''))"
      if "isEnabled s name = Inr False"
    proof -
      from that have e: "E = []" using E_off export by simp
      have "Layer pre g \<notin> set ?app" for g
        unfolding members using fixed [of g] S by (auto simp: e export)
      moreover have "dispatch ?app req =
                       Some (if req_method req = ''OPTIONS'' then Response 204 []
                             else if body_rejected req then Response 500 ''Internal Server Error''
                             else Response 404 ''Not Found'')"
        if "covers pre (req_path req)" for req
        using that e export by (intro off) simp
      ultimately show ?thesis by blast
    qed
    have 2: "Layer pre h \<in> set ?app \<and>
             (\<forall>req. covers pre (req_path req) \<longrightarrow>
                     dispatch ?app req =
                       Some (if req_method req = ''OPTIONS'' then Response 204 []
                             else if body_rejected req then Response 500 ''Internal Server Error''
                             else (case h (strip pre req) of
                                     Respond r \<Rightarrow> r
                                   | Next \<Rightarrow> Response 404 ''Not Found''
                                   | Raise \<Rightarrow> Response 500 ''Internal Server Error'')))"
      if "isEnabled s name = Inr True" "ms name = Some (Exports h)" for h
    proof -
      from that have e: "E = [Layer [''api'', ''export''] h]" using E_on export by simp
      have "Layer pre h \<in> set ?app"
        unfolding members by (simp add: e export)
      then show ?thesis
        using E_answer [OF _ e] by (simp add: export)
    qed
    from 1 2 show ?thesis by blast
  qed
  with app show ?thesis by blast
qed

text \<open>
  C4, amended, at the manifest
  \<^verbatim>\<open>{advanced_search: {enabled: false}, export_csv: {enabled: true}}\<close> with the export
  route module present.
\<close>

theorem server_mounts_by_flag_witness:
  "\<exists>app. server [''export_csv'' \<mapsto> Exports (route ''GET'' (Response 200 ''csv''))]
            \<lparr>environment = ''stage'',
             config = JObj [(''features'', JObj [(''advanced_search'', JObj [(''enabled'', JBool False)]),
                                                 (''export_csv'', JObj [(''enabled'', JBool True)])])],
             configPath = None\<rparr> not_found = Inr app \<and>
          dispatch app \<lparr>req_method = ''POST'', req_path = [''api'', ''search''], body_rejected = False\<rparr> =
            Some (Response 404 ''Not Found'') \<and>
          dispatch app \<lparr>req_method = ''OPTIONS'', req_path = [''api'', ''search''], body_rejected = False\<rparr> =
            Some (Response 204 []) \<and>
          dispatch app \<lparr>req_method = ''POST'', req_path = [''api'', ''search''], body_rejected = True\<rparr> =
            Some (Response 500 ''Internal Server Error'') \<and>
          Layer [''api'', ''export''] (route ''GET'' (Response 200 ''csv'')) \<in> set app \<and>
          dispatch app \<lparr>req_method = ''GET'', req_path = [''api'', ''export''], body_rejected = False\<rparr> =
            Some (Response 200 ''csv'') \<and>
          dispatch app \<lparr>req_method = ''GET'', req_path = [''api'', ''export'', ''preview''], body_rejected = False\<rparr> =
            Some (Response 404 ''Not Found'')"
proof -
  let ?ms = "[''export_csv'' \<mapsto> Exports (route ''GET'' (Response 200 ''csv''))]"
  let ?s = "\<lparr>environment = ''stage'',
             config = JObj [(''features'', JObj [(''advanced_search'', JObj [(''enabled'', JBool False)]),
                                                 (''export_csv'', JObj [(''enabled'', JBool True)])])],
             configPath = None\<rparr>"
  have off: "isEnabled ?s ''advanced_search'' = Inr False"
    by (simp add: isEnabled_def not_loaded_def)
  have on: "isEnabled ?s ''export_csv'' = Inr True"
    by (simp add: isEnabled_def not_loaded_def)
  have m: "?ms ''export_csv'' = Some (Exports (route ''GET'' (Response 200 ''csv'')))"
    by simp
  have c1: "(''advanced_search'', [''api'', ''search'']) \<in> set server_capabilities"
    and c2: "(''export_csv'', [''api'', ''export'']) \<in> set server_capabilities"
    by (simp_all add: server_capabilities_def)
  from server_mounts_by_flag [OF c1, of ?ms ?s not_found] off
  obtain app where app: "server ?ms ?s not_found = Inr app"
    and a: "\<forall>req. covers [''api'', ''search''] (req_path req) \<longrightarrow>
                  dispatch app req =
                    Some (if req_method req = ''OPTIONS'' then Response 204 []
                          else if body_rejected req then Response 500 ''Internal Server Error''
                          else Response 404 ''Not Found'')"
    by auto
  from a have 1:
    "dispatch app \<lparr>req_method = ''POST'', req_path = [''api'', ''search''], body_rejected = False\<rparr> =
       Some (Response 404 ''Not Found'')"
    "dispatch app \<lparr>req_method = ''OPTIONS'', req_path = [''api'', ''search''], body_rejected = False\<rparr> =
       Some (Response 204 [])"
    "dispatch app \<lparr>req_method = ''POST'', req_path = [''api'', ''search''], body_rejected = True\<rparr> =
       Some (Response 500 ''Internal Server Error'')"
    by (simp_all add: covers_def)
  from server_mounts_by_flag [OF c2, of ?ms ?s not_found] on m app
  have b: "Layer [''api'', ''export''] (route ''GET'' (Response 200 ''csv'')) \<in> set app"
    and e: "\<forall>req. covers [''api'', ''export''] (req_path req) \<longrightarrow>
                  dispatch app req =
                    Some (if req_method req = ''OPTIONS'' then Response 204 []
                          else if body_rejected req then Response 500 ''Internal Server Error''
                          else (case route ''GET'' (Response 200 ''csv'') (strip [''api'', ''export''] req) of
                                  Respond r \<Rightarrow> r
                                | Next \<Rightarrow> Response 404 ''Not Found''
                                | Raise \<Rightarrow> Response 500 ''Internal Server Error''))"
    by auto
  from e have 2:
    "dispatch app \<lparr>req_method = ''GET'', req_path = [''api'', ''export''], body_rejected = False\<rparr> =
       Some (Response 200 ''csv'')"
    "dispatch app \<lparr>req_method = ''GET'', req_path = [''api'', ''export'', ''preview''], body_rejected = False\<rparr> =
       Some (Response 404 ''Not Found'')"
    by (simp_all add: covers_def strip_def route_def)
  from app 1 b 2 show ?thesis by blast
qed

text \<open>The gating decision for a capability reads only the record under its own name.\<close>

lemma getFeatureRouter_own_flag:
  assumes "get_prop (config s) ''features'' = Inr fs"
      and "get_prop (config s') ''features'' = Inr fs'"
      and "map_of (own_props fs) n = map_of (own_props fs') n"
  shows "getFeatureRouter ms s n = getFeatureRouter ms s' n"
proof -
  have "isEnabled s n = isEnabled s' n"
    using assms by (simp add: isEnabled_char)
  then show ?thesis
    by (simp add: getFeatureRouter_def)
qed

text \<open>
  C8 as stated fails in its description of the bound set: with \<^verbatim>\<open>export_csv\<close>
  enabled and no route module on disk, the server's pass binds no prefix at all.
\<close>

theorem enabled_prefix_unbound_counterexample:
  "(''export_csv'', [''api'', ''export'']) \<in> set server_capabilities \<and>
   isEnabled \<lparr>environment = ''production'',
              config = JObj [(''features'', JObj [(''export_csv'', JObj [(''enabled'', JBool True)])])],
              configPath = None\<rparr> ''export_csv'' = Inr True \<and>
   mount_pass Map.empty
     \<lparr>environment = ''production'',
      config = JObj [(''features'', JObj [(''export_csv'', JObj [(''enabled'', JBool True)])])],
      configPath = None\<rparr> server_capabilities [] = Inr []"
  by (simp add: server_capabilities_def isEnabled_def not_loaded_def mount_def getFeatureRouter_def)

text \<open>
  C8, amended.  Two passes over the same mount calls in different orders both complete
  and bind the same set of prefixes: the prefixes bound before, and the prefixes of the
  capabilities whose flag is enabled and whose route module loads.  The decision for a
  capability is the same in any two configurations that hold the same record under its
  name, whatever the other flags are.
\<close>

theorem mount_order_irrelevant:
  "(mset caps' = mset caps \<longrightarrow>
      (\<exists>app app'. mount_pass ms s caps app0 = Inr app \<and>
                  mount_pass ms s caps' app0 = Inr app' \<and>
                  set (map layer_prefix app') = set (map layer_prefix app) \<and>
                  set (map layer_prefix app) =
                    set (map layer_prefix app0) \<union>
                    {p. \<exists>n r. (n, p) \<in> set caps \<and> isEnabled s n = Inr True \<and>
                               ms n = Some (Exports r)})) \<and>
   (get_prop (config s) ''features'' = Inr fs \<and>
    get_prop (config s') ''features'' = Inr fs' \<and>
    map_of (own_props fs) n = map_of (own_props fs') n \<longrightarrow>
      getFeatureRouter ms s n = getFeatureRouter ms s' n)"
proof (intro conjI impI)
  assume "mset caps' = mset caps"
  then have eq: "set caps' = set caps"
    by (rule mset_eq_setD)
  obtain app where app: "mount_pass ms s caps app0 = Inr app"
    and p: "set (map layer_prefix app) =
              set (map layer_prefix app0) \<union>
              {p. \<exists>n r. (n, p) \<in> set caps \<and> isEnabled s n = Inr True \<and> ms n = Some (Exports r)}"
    using mount_pass_prefixes [of ms s caps app0] by blast
  obtain app' where app': "mount_pass ms s caps' app0 = Inr app'"
    and p': "set (map layer_prefix app') =
              set (map layer_prefix app0) \<union>
              {p. \<exists>n r. (n, p) \<in> set caps' \<and> isEnabled s n = Inr True \<and> ms n = Some (Exports r)}"
    using mount_pass_prefixes [of ms s caps' app0] by blast
  from p p' have "set (map layer_prefix app') = set (map layer_prefix app)"
    unfolding eq by (rule ssubst)
  with app app' p
  show "\<exists>app app'. mount_pass ms s caps app0 = Inr app \<and>
                  mount_pass ms s caps' app0 = Inr app' \<and>
                  set (map layer_prefix app') = set (map layer_prefix app) \<and>
                  set (map layer_prefix app) =
                    set (map layer_prefix app0) \<union>
                    {p. \<exists>n r. (n, p) \<in> set caps \<and> isEnabled s n = Inr True \<and>
                               ms n = Some (Exports r)}"
    by blast
next
  assume "get_prop (config s) ''features'' = Inr fs \<and>
    get_prop (config s') ''features'' = Inr fs' \<and>
    map_of (own_props fs) n = map_of (own_props fs') n"
  then show "getFeatureRouter ms s n = getFeatureRouter ms s' n"
    using getFeatureRouter_own_flag by blast
qed


text \<open>C8, amended, at capabilities \<open>a\<close> (enabled), \<open>b\<close> (disabled) and \<open>c\<close> (enabled).\<close>

theorem mount_order_irrelevant_witness:
  "mset [(''c'', [''api'', ''c'']), (''a'', [''api'', ''a'']), (''b'', [''api'', ''b''])] =
   mset [(''a'', [''api'', ''a'']), (''b'', [''api'', ''b'']), (''c'', [''api'', ''c''])] \<and>
   mount_pass [''a'' \<mapsto> Exports not_found, ''b'' \<mapsto> Exports not_found, ''c'' \<mapsto> Exports not_found]
     \<lparr>environment = ''stage'',
      config = JObj [(''features'', JObj [(''a'', JObj [(''enabled'', JBool True)]),
                                          (''b'', JObj [(''enabled'', JBool False)]),
                                          (''c'', JObj [(''enabled'', JBool True)])])],
      configPath = None\<rparr>
     [(''a'', [''api'', ''a'']), (''b'', [''api'', ''b'']), (''c'', [''api'', ''c''])] [] =
     Inr [Layer [''api'', ''a''] not_found, Layer [''api'', ''c''] not_found] \<and>
   mount_pass [''a'' \<mapsto> Exports not_found, ''b'' \<mapsto> Exports not_found, ''c'' \<mapsto> Exports not_found]
     \<lparr>environment = ''stage'',
      config = JObj [(''features'', JObj [(''a'', JObj [(''enabled'', JBool True)]),
                                          (''b'', JObj [(''enabled'', JBool False)]),
                                          (''c'', JObj [(''enabled'', JBool True)])])],
      configPath = None\<rparr>
     [(''c'', [''api'', ''c'']), (''a'', [''api'', ''a'']), (''b'', [''api'', ''b''])] [] =
     Inr [Layer [''api'', ''c''] not_found, Layer [''api'', ''a''] not_found] \<and>
   set (map layer_prefix [Layer [''api'', ''c''] not_found, Layer [''api'', ''a''] not_found]) =
   set (map layer_prefix [Layer [''api'', ''a''] not_found, Layer [''api'', ''c''] not_found]) \<and>
   getFeatureRouter [''a'' \<mapsto> Exports not_found, ''b'' \<mapsto> Exports not_found, ''c'' \<mapsto> Exports not_found]
     \<lparr>environment = ''stage'',
      config = JObj [(''features'', JObj [(''a'', JObj [(''enabled'', JBool True)]),
                                          (''b'', JObj [(''enabled'', JBool False)]),
                                          (''c'', JObj [(''enabled'', JBool True)])])],
      configPath = None\<rparr> ''a'' =
   getFeatureRouter [''a'' \<mapsto> Exports not_found, ''b'' \<mapsto> Exports not_found, ''c'' \<mapsto> Exports not_found]
     \<lparr>environment = ''stage'',
      config = JObj [(''features'', JObj [(''a'', JObj [(''enabled'', JBool True)]),
                                          (''b'', JObj [(''enabled'', JBool True)])])],
      configPath = None\<rparr> ''a''"
proof -
  let ?ms = "[''a'' \<mapsto> Exports not_found, ''b'' \<mapsto> Exports not_found, ''c'' \<mapsto> Exports not_found]"
  let ?s = "\<lparr>environment = ''stage'',
      config = JObj [(''features'', JObj [(''a'', JObj [(''enabled'', JBool True)]),
                                          (''b'', JObj [(''enabled'', JBool False)]),
                                          (''c'', JObj [(''enabled'', JBool True)])])],
      configPath = None\<rparr>"
  let ?s' = "\<lparr>environment = ''stage'',
      config = JObj [(''features'', JObj [(''a'', JObj [(''enabled'', JBool True)]),
                                          (''b'', JObj [(''enabled'', JBool True)])])],
      configPath = None\<rparr>"
  let ?caps = "[(''a'', [''api'', ''a'']), (''b'', [''api'', ''b'']), (''c'', [''api'', ''c''])]"
  let ?caps' = "[(''c'', [''api'', ''c'']), (''a'', [''api'', ''a'']), (''b'', [''api'', ''b''])]"
  have perm: "mset ?caps' = mset ?caps"
    by simp
  have en: "isEnabled ?s ''a'' = Inr True" "isEnabled ?s ''b'' = Inr False" "isEnabled ?s ''c'' = Inr True"
    by (simp_all add: isEnabled_def not_loaded_def)
  have pass: "mount_pass ?ms ?s ?caps [] =
                Inr [Layer [''api'', ''a''] not_found, Layer [''api'', ''c''] not_found]"
    and pass': "mount_pass ?ms ?s ?caps' [] =
                Inr [Layer [''api'', ''c''] not_found, Layer [''api'', ''a''] not_found]"
    by (simp_all add: en mount_def getFeatureRouter_def app_use_def)
  note inst = mount_order_irrelevant
    [of ?caps' ?caps ?ms ?s "[]" "JObj [(''a'', JObj [(''enabled'', JBool True)]),
                                          (''b'', JObj [(''enabled'', JBool False)]),
                                          (''c'', JObj [(''enabled'', JBool True)])]"
        ?s' "JObj [(''a'', JObj [(''enabled'', JBool True)]),
                   (''b'', JObj [(''enabled'', JBool True)])]" "''a''"]
  from inst perm pass pass'
  have sets: "set (map layer_prefix [Layer [''api'', ''c''] not_found, Layer [''api'', ''a''] not_found]) =
        set (map layer_prefix [Layer [''api'', ''a''] not_found, Layer [''api'', ''c''] not_found])"
    by auto
  from inst have own: "getFeatureRouter ?ms ?s ''a'' = getFeatureRouter ?ms ?s' ''a''"
    by simp
  from perm pass pass' sets own show ?thesis
    by blast
qed

end
